theory Spec2Isabelle
  imports Complex_Main
begin

section \<open>Python values shared by the modules\<close>

text \<open>
  Exceptions are values: a call that raises returns \<open>Inl e\<close>. Only the exception
  classes that the modelled functions raise or let through are listed; \<open>OtherError\<close>
  stands for any other subclass of \<open>Exception\<close> coming from a collaborator.
\<close>

datatype py_error =
    IndexError
  | OverflowError
  | ValueError
  | AssertionError string
  | FileNotFoundError string
  | OtherError string

section \<open>Pseudo-random permutation: \<open>levanter/data/_prp.py\<close>\<close>

subsection \<open>The random-number library\<close>

text \<open>
  \<open>jax.random\<close> is a library outside the repository. Its generator is functional: every
  draw is a function of an explicit key. The two operations that \<open>Permutation.__init__\<close>
  uses are taken as parameters: \<open>jr_split\<close> is \<open>jrandom.split(key)\<close>, unpacked into its
  two sub-keys, and \<open>jr_randint k lo hi\<close> is \<open>jrandom.randint(k, (), lo, hi)\<close>.
\<close>

record 'k jrandom =
  jr_split :: "'k \<Rightarrow> 'k \<times> 'k"
  jr_randint :: "'k \<Rightarrow> int \<Rightarrow> int \<Rightarrow> int"

text \<open>
  The documented contract of \<open>randint\<close>: a draw lies in the half-open interval
  \<open>[minval, maxval)\<close> whenever that interval is not empty.
\<close>

definition randint_in_range :: "'k jrandom \<Rightarrow> bool" where
  "randint_in_range G \<longleftrightarrow>
     (\<forall>k lo hi. lo < hi \<longrightarrow> lo \<le> jr_randint G k lo hi \<and> jr_randint G k lo hi < hi)"

subsection \<open>Construction\<close>

record 'k permutation =
  p_length :: int
  prng_key :: 'k
  p_a :: int
  p_b :: int

text \<open>
  \<open>cond = lambda a_and_key: jnp.all(jnp.gcd(a_and_key[0], length) != 1)\<close>; the draw is a
  scalar, so \<open>jnp.all\<close> is the comparison itself.
\<close>

definition cond :: "int \<Rightarrow> int \<times> 'k \<Rightarrow> bool" where
  "cond len a_and_key \<longleftrightarrow> gcd (fst a_and_key) len \<noteq> 1"

definition loop_body :: "'k jrandom \<Rightarrow> int \<Rightarrow> int \<times> 'k \<Rightarrow> int \<times> 'k" where
  "loop_body G len a_and_key =
     (let (a, key) = a_and_key;
          (this_key, key) = jr_split G key;
          a = jr_randint G this_key 1 len
      in (a, key))"

text \<open>
  \<open>jax.lax.while_loop(cond, loop_body, init_val)\<close>. Nothing bounds the number of
  rounds, so the loop is a partial function: \<open>None\<close> is the loop that never exits.
\<close>

partial_function (option) while_loop ::
  "'k jrandom \<Rightarrow> int \<Rightarrow> int \<times> 'k \<Rightarrow> (int \<times> 'k) option" where
  "while_loop G len val =
     (if cond len val then while_loop G len (loop_body G len val) else Some val)"

text \<open>
  \<open>Permutation.__init__(self, length, prng_key)\<close>; \<open>None\<close> when it does not return.
  The draws of \<open>jax.random\<close> are \<open>int32\<close> values: for a length of \<open>2^31\<close> or more the
  library raises \<open>OverflowError\<close>, which the parameter \<open>G\<close> has no means to express, so
  what is proved of a returned object concerns lengths below \<open>2^31\<close> on the real
  library.
\<close>

definition init :: "'k jrandom \<Rightarrow> int \<Rightarrow> 'k \<Rightarrow> 'k permutation option" where
  "init G len key =
     (let (a_key, b_key) = jr_split G key;
          a0 = jr_randint G a_key 1 len;
          b0 = jr_randint G b_key 0 len
      in case while_loop G len (a0, a_key) of
           None \<Rightarrow> None
         | Some (a, key') \<Rightarrow>
             Some \<lparr>p_length = len, prng_key = key, p_a = a, p_b = b0\<rparr>)"

subsection \<open>Index arrays\<close>

text \<open>
  A \<open>jnp.ndarray\<close> or \<open>np.ndarray\<close> of indices has a shape, a signed integer element
  type of \<open>dtype_bits\<close> bits (32 for JAX's default \<open>int32\<close>, 64 for NumPy's default
  \<open>int64\<close>) and its elements in row-major order. Arithmetic on the elements wraps
  around at the width of the element type, and the result keeps the element type of
  the array: the Python integers \<open>self._a\<close>, \<open>self._b\<close> and \<open>self.length\<close> do not widen
  it. A Python integer operand that the element type cannot hold is rejected by the
  array library with \<open>OverflowError\<close>. Comparing the elements with a Python integer is
  exact. The scalar branch works on Python integers, which are unbounded. The rules
  are those of the 32- and 64-bit element types; for narrower ones the two libraries
  treat a Python integer operand differently, which is not modelled.
\<close>

record ndarray =
  dtype_bits :: nat
  shape :: "nat list"
  elems :: "int list"

definition fits :: "nat \<Rightarrow> int \<Rightarrow> bool" where
  "fits w x \<longleftrightarrow> - (2 ^ (w - 1)) \<le> x \<and> x < 2 ^ (w - 1)"

definition wrap :: "nat \<Rightarrow> int \<Rightarrow> int" where
  "wrap w x = (x + 2 ^ (w - 1)) mod 2 ^ w - 2 ^ (w - 1)"

definition wf_array :: "ndarray \<Rightarrow> bool" where
  "wf_array arr \<longleftrightarrow>
     0 < dtype_bits arr \<and> length (elems arr) = prod_list (shape arr) \<and>
     list_all (fits (dtype_bits arr)) (elems arr)"

text \<open>\<open>jnp.any(indices < c)\<close> and \<open>jnp.any(indices >= c)\<close> (and the \<open>np\<close> forms).\<close>

definition any_lt :: "ndarray \<Rightarrow> int \<Rightarrow> bool" where
  "any_lt arr c \<longleftrightarrow> list_ex (\<lambda>x. x < c) (elems arr)"

definition any_ge :: "ndarray \<Rightarrow> int \<Rightarrow> bool" where
  "any_ge arr c \<longleftrightarrow> list_ex (\<lambda>x. x \<ge> c) (elems arr)"

text \<open>\<open>c * arr\<close>, \<open>arr + c\<close> and \<open>arr % c\<close> for a Python integer \<open>c\<close>: element-wise,
  in the element type of \<open>arr\<close>, keeping its shape.\<close>

definition arr_mul :: "int \<Rightarrow> ndarray \<Rightarrow> py_error + ndarray" where
  "arr_mul c arr =
     (if fits (dtype_bits arr) c
      then Inr (arr\<lparr>elems := map (\<lambda>x. wrap (dtype_bits arr) (c * x)) (elems arr)\<rparr>)
      else Inl OverflowError)"

definition arr_add :: "ndarray \<Rightarrow> int \<Rightarrow> py_error + ndarray" where
  "arr_add arr c =
     (if fits (dtype_bits arr) c
      then Inr (arr\<lparr>elems := map (\<lambda>x. wrap (dtype_bits arr) (x + c)) (elems arr)\<rparr>)
      else Inl OverflowError)"

definition arr_mod :: "ndarray \<Rightarrow> int \<Rightarrow> py_error + ndarray" where
  "arr_mod arr c =
     (if fits (dtype_bits arr) c
      then Inr (arr\<lparr>elems := map (\<lambda>x. if c = 0 then 0 else x mod c) (elems arr)\<rparr>)
      else Inl OverflowError)"

subsection \<open>Application\<close>

datatype indices = Scalar int | JnpArray ndarray | NpArray ndarray

text \<open>The last line of \<open>__call__\<close> on an array:
  \<open>(self._a * indices + self._b) % self.length\<close>.\<close>

definition affine_arr :: "'k permutation \<Rightarrow> ndarray \<Rightarrow> py_error + ndarray" where
  "affine_arr p arr =
     (case arr_mul (p_a p) arr of
        Inl e \<Rightarrow> Inl e
      | Inr t1 \<Rightarrow>
          (case arr_add t1 (p_b p) of
             Inl e \<Rightarrow> Inl e
           | Inr t2 \<Rightarrow> arr_mod t2 (p_length p)))"

text \<open>\<open>Permutation.__call__(self, indices)\<close>, one equation for each \<open>isinstance\<close>
  branch, in the source's order.\<close>

fun call :: "'k permutation \<Rightarrow> indices \<Rightarrow> py_error + indices" where
  "call p (JnpArray arr) =
     (if any_lt arr 0 \<or> any_ge arr (p_length p) then Inl IndexError
      else map_sum id JnpArray (affine_arr p arr))"
| "call p (NpArray arr) =
     (if any_lt arr 0 \<or> any_ge arr (p_length p) then Inl IndexError
      else map_sum id NpArray (affine_arr p arr))"
| "call p (Scalar i) =
     (if i < 0 \<or> i \<ge> p_length p then Inl IndexError
      else Inr (Scalar ((p_a p * i + p_b p) mod p_length p)))"

subsection \<open>Construction with the library as a relation\<close>

text \<open>
  In the functions above a draw is a function of its key by the type of \<open>G\<close>. To state
  that the result of construction is determined by the length and the key, the same
  constructor is written once more with the two library operations as relations,
  which may offer several results for one key (a generator with hidden state would).
  \<open>keyed_draws\<close> says that they do not: \<open>split\<close> and \<open>randint\<close> return one result for
  one key and one interval, which is how \<open>jax.random\<close> is documented.
\<close>

record 'k jrandom_rel =
  jr_split_rel :: "'k \<Rightarrow> 'k \<times> 'k \<Rightarrow> bool"
  jr_randint_rel :: "'k \<Rightarrow> int \<Rightarrow> int \<Rightarrow> int \<Rightarrow> bool"



text \<open>\<open>loop_body\<close>: split the carried key, draw the next candidate from the first half.\<close>

inductive loop_body_rel :: "'k jrandom_rel \<Rightarrow> int \<Rightarrow> int \<times> 'k \<Rightarrow> int \<times> 'k \<Rightarrow> bool"
  for R len where
  body: "jr_split_rel R key (this_key, key') \<Longrightarrow> jr_randint_rel R this_key 1 len a'
     \<Longrightarrow> loop_body_rel R len (a, key) (a', key')"

text \<open>\<open>jax.lax.while_loop\<close>: the condition is tested before each round.\<close>

inductive while_loop_rel :: "'k jrandom_rel \<Rightarrow> int \<Rightarrow> int \<times> 'k \<Rightarrow> int \<times> 'k \<Rightarrow> bool"
  for R len where
  exit: "\<not> cond len val \<Longrightarrow> while_loop_rel R len val val"
| round: "cond len val \<Longrightarrow> loop_body_rel R len val val' \<Longrightarrow> while_loop_rel R len val' r
     \<Longrightarrow> while_loop_rel R len val r"

text \<open>\<open>Permutation.__init__\<close>: \<open>init_rel R length prng_key self\<close> holds when the
  constructor can return the object \<open>self\<close>.\<close>

inductive init_rel :: "'k jrandom_rel \<Rightarrow> int \<Rightarrow> 'k \<Rightarrow> 'k permutation \<Rightarrow> bool"
  for R where
  construct: "jr_split_rel R key (a_key, b_key) \<Longrightarrow> jr_randint_rel R a_key 1 len a0
     \<Longrightarrow> jr_randint_rel R b_key 0 len b0
     \<Longrightarrow> while_loop_rel R len (a0, a_key) (a, key')
     \<Longrightarrow> init_rel R len key \<lparr>p_length = len, prng_key = key, p_a = a, p_b = b0\<rparr>"


subsection \<open>A generator for concrete runs\<close>

text \<open>
  A small generator that meets the contract of \<open>randint\<close>, on natural-number keys.
  It is not JAX's generator; it instantiates the parameter \<open>G\<close> wherever a theorem
  is run on a concrete input. With maxval \<open>\<le>\<close> minval it returns minval, as
  \<open>jrandom.randint\<close> does.
\<close>

definition counter_prng :: "nat jrandom" where
  "counter_prng =
     \<lparr>jr_split = (\<lambda>k. (2 * k + 1, 2 * k + 2)),
      jr_randint = (\<lambda>k lo hi. if lo < hi then lo + int k mod (hi - lo) else lo)\<rparr>"

text \<open>
  A generator that draws 2 whenever 2 is inside the interval asked for. It keeps to the
  contract of \<open>randint\<close> as well.
\<close>

definition stuck_prng :: "unit jrandom" where
  "stuck_prng =
     \<lparr>jr_split = (\<lambda>k. (k, k)),
      jr_randint = (\<lambda>k lo hi. if lo \<le> 2 \<and> 2 < hi then 2 else lo)\<rparr>"

text \<open>
  A library that is not keyed: \<open>randint\<close> may return any value of its interval for
  the same key.
\<close>

definition free_draws :: "unit jrandom_rel" where
  "free_draws =
     \<lparr>jr_split_rel = (\<lambda>k r. True),
      jr_randint_rel = (\<lambda>k lo hi v. lo \<le> v \<and> v < hi)\<rparr>"

section \<open>Audio cache: \<open>levanter/data/audio.py\<close>\<close>

subsection \<open>Records and collaborators\<close>

text \<open>
  A raw item is \<open>(audio, sampling_rate, text)\<close>. A waveform is a one-dimensional
  float array and the extracted features of one item are a two-dimensional one; the
  module never inspects their entries. \<open>AudioTextDict\<close> is the processed record.
\<close>

type_synonym waveform = "real list"
type_synonym features = "real list list"
type_synonym raw_item = "waveform \<times> int \<times> string"

record AudioTextDict =
  input_features :: features
  input_ids :: "int list"
  attention_mask :: "int list"

text \<open>\<open>AudioTextDict_exemplar\<close>: \<open>np.zeros((1, 1))\<close> and two empty \<open>int32\<close> arrays.\<close>

definition AudioTextDict_exemplar :: AudioTextDict where
  "AudioTextDict_exemplar = \<lparr>input_features = [[0]], input_ids = [], attention_mask = []\<rparr>"

text \<open>
  \<open>BatchTokenizer\<close> (\<open>levanter.data.text\<close>) is defined in another module. The object is
  represented by the arguments it is built from; calling it is the parameter
  \<open>bt_call\<close> of \<open>BatchAudioProcessor_call\<close>. \<open>bt_padding\<close> is \<open>Some ''max_length''\<close> or
  \<open>None\<close> for Python's \<open>False\<close>.
\<close>

record ('tok, 'res) BatchTokenizer =
  bt_tokenizer :: 'tok
  bt_enforce_bos :: bool
  bt_enforce_eos :: bool
  bt_batch_size :: int
  bt_override_resources :: "'res option"
  bt_return_attention_mask :: bool
  bt_padding :: "string option"
  bt_max_length :: int

text \<open>One tokenized text: its \<open>input_ids\<close> and its \<open>attention_mask\<close>.\<close>

type_synonym text_features = "int list \<times> int list"

text \<open>
  The feature extractor of a HuggingFace processor, called as
  \<open>feature_extractor(audio_batch, sampling_rate=r)\<close>; the result is the list under
  \<open>"input_features"\<close>, or the exception it raises.
\<close>

type_synonym feature_extractor = "waveform list \<Rightarrow> int \<Rightarrow> py_error + features list"

record ('tok, 'res) BatchAudioProcessor =
  feature_extractor :: feature_extractor
  bt :: "('tok, 'res) BatchTokenizer"
  override_resources :: "'res option"
  batch_size' :: int

text \<open>\<open>BatchAudioProcessor.__init__\<close>; \<open>processor_fe\<close> is \<open>processor.feature_extractor\<close>.\<close>

definition BatchAudioProcessor_init ::
  "feature_extractor \<Rightarrow> 'tok \<Rightarrow> bool \<Rightarrow> bool \<Rightarrow> int \<Rightarrow> 'res option \<Rightarrow> int \<Rightarrow> bool
     \<Rightarrow> ('tok, 'res) BatchAudioProcessor" where
  "BatchAudioProcessor_init processor_fe tokenizer enforce_bos enforce_eos batch_size
       override_res max_length padding =
     \<lparr>feature_extractor = processor_fe,
      bt = \<lparr>bt_tokenizer = tokenizer, bt_enforce_bos = enforce_bos,
             bt_enforce_eos = enforce_eos, bt_batch_size = batch_size,
             bt_override_resources = override_res, bt_return_attention_mask = True,
             bt_padding = (if padding then Some ''max_length'' else None),
             bt_max_length = max_length\<rparr>,
      override_resources = override_res,
      batch_size' = batch_size\<rparr>"

subsection \<open>\<open>BatchAudioProcessor.__call__\<close>\<close>

text \<open>
  The calls made to the two collaborators are recorded in order, so that what happens
  before the first of them can be stated.
\<close>

datatype event =
    FeatureExtractorCall "waveform list" int
  | BatchTokenizerCall "string list"

text \<open>
  \<open>audio_batch, sampling_rates, text_batch = list(zip(*batch))\<close>: on an empty batch
  \<open>zip()\<close> yields nothing and the unpacking into three names raises \<open>ValueError\<close>.
\<close>

definition unzip_batch :: "raw_item list \<Rightarrow> py_error + waveform list \<times> int list \<times> string list" where
  "unzip_batch batch =
     (if batch = [] then Inl ValueError
      else Inr (map fst batch, map (fst \<circ> snd) batch, map (snd \<circ> snd) batch))"

text \<open>
  The final loop: \<open>for i, text in enumerate(text_features)\<close>, reading
  \<open>audio_features["input_features"][i]\<close>, which raises \<open>IndexError\<close> past the end.
\<close>

fun debatch :: "features list \<Rightarrow> text_features list \<Rightarrow> nat \<Rightarrow> py_error + AudioTextDict list" where
  "debatch feats [] i = Inr []"
| "debatch feats (text # rest) i =
     (if i < length feats
      then (case debatch feats rest (Suc i) of
              Inl e \<Rightarrow> Inl e
            | Inr out \<Rightarrow>
                Inr (\<lparr>input_features = feats ! i, input_ids = fst text,
                      attention_mask = snd text\<rparr> # out))
      else Inl IndexError)"

text \<open>
  \<open>uniq_sampling_rates = set(sampling_rates)\<close> is the duplicate-free list
  \<open>remdups sampling_rates\<close>; \<open>assert len(uniq_sampling_rates) == 1\<close> holds when that
  list is a singleton \<open>[r]\<close>, and then \<open>uniq_sampling_rates.pop()\<close> is \<open>r\<close>. The
  conversions with \<open>np.array\<close> after the two collaborator calls leave the values as
  they are and are not modelled as steps that can fail.
\<close>

definition BatchAudioProcessor_call ::
  "(('tok, 'res) BatchTokenizer \<Rightarrow> string list \<Rightarrow> py_error + text_features list)
     \<Rightarrow> ('tok, 'res) BatchAudioProcessor \<Rightarrow> raw_item list
     \<Rightarrow> (py_error + AudioTextDict list) \<times> event list" where
  "BatchAudioProcessor_call bt_call self batch =
     (case unzip_batch batch of
        Inl e \<Rightarrow> (Inl e, [])
      | Inr (audio_batch, sampling_rates, text_batch) \<Rightarrow>
          (case remdups sampling_rates of
             [r] \<Rightarrow>
               (case feature_extractor self audio_batch r of
                  Inl e \<Rightarrow> (Inl e, [FeatureExtractorCall audio_batch r])
                | Inr audio_features \<Rightarrow>
                    (case bt_call (bt self) text_batch of
                       Inl e \<Rightarrow>
                         (Inl e, [FeatureExtractorCall audio_batch r,
                                  BatchTokenizerCall text_batch])
                     | Inr text_feats \<Rightarrow>
                         (debatch audio_features text_feats 0,
                          [FeatureExtractorCall audio_batch r,
                           BatchTokenizerCall text_batch])))
           | _ \<Rightarrow> (Inl (AssertionError ''Sampling rates should be standardized''), [])))"

subsection \<open>\<open>TreeCache\<close> and \<open>ProcessedAudioCache\<close>\<close>

text \<open>
  \<open>TreeCache\<close> and \<open>build_or_load_cache\<close> (\<open>levanter.store.cache\<close>) are defined in
  another module. A cache object is a value of an arbitrary type \<open>'c\<close> and the operations
  that \<open>ProcessedAudioCache\<close> uses are parameters, collected in one record. An awaited
  coroutine is modelled by its outcome: the value it returns or the exception it
  raises.
\<close>

record ('c, 'src, 'mon, 'tok, 'res) TreeCache_api =
  tc_async_len :: "'c \<Rightarrow> py_error + int"
  tc_final_length_is_known :: "'c \<Rightarrow> py_error + bool"
  tc_is_finite :: "'c \<Rightarrow> bool"
  tc_current_len :: "'c \<Rightarrow> py_error + int option"
  tc_get_batch :: "'c \<Rightarrow> int list \<Rightarrow> py_error + AudioTextDict list"
  tc_is_finished :: "'c \<Rightarrow> bool"
  tc_load :: "string \<Rightarrow> AudioTextDict \<Rightarrow> py_error + 'c"
  tc_build_or_load_cache ::
    "string \<Rightarrow> 'src \<Rightarrow> ('tok, 'res) BatchAudioProcessor \<Rightarrow> bool \<Rightarrow> 'mon list \<Rightarrow> py_error + 'c"

record 'c ProcessedAudioCache =
  cache :: 'c

definition async_len ::
  "('c, 'src, 'mon, 'tok, 'res) TreeCache_api \<Rightarrow> 'c ProcessedAudioCache \<Rightarrow> py_error + int" where
  "async_len T self = tc_async_len T (cache self)"

definition final_length_is_known ::
  "('c, 'src, 'mon, 'tok, 'res) TreeCache_api \<Rightarrow> 'c ProcessedAudioCache \<Rightarrow> py_error + bool" where
  "final_length_is_known T self = tc_final_length_is_known T (cache self)"

definition is_finite ::
  "('c, 'src, 'mon, 'tok, 'res) TreeCache_api \<Rightarrow> 'c ProcessedAudioCache \<Rightarrow> bool" where
  "is_finite T self = tc_is_finite T (cache self)"

definition current_len ::
  "('c, 'src, 'mon, 'tok, 'res) TreeCache_api \<Rightarrow> 'c ProcessedAudioCache
     \<Rightarrow> py_error + int option" where
  "current_len T self = tc_current_len T (cache self)"

definition get_batch ::
  "('c, 'src, 'mon, 'tok, 'res) TreeCache_api \<Rightarrow> 'c ProcessedAudioCache \<Rightarrow> int list
     \<Rightarrow> py_error + AudioTextDict list" where
  "get_batch T self idxs = tc_get_batch T (cache self) idxs"

text \<open>
  \<open>ProcessedAudioCache.build_or_load\<close>, every keyword argument passed explicitly.
  \<open>monitors or []\<close> is the empty list for \<open>None\<close>. The second component is what
  is written to the logger.
\<close>

definition build_or_load ::
  "('c, 'src, 'mon, 'tok, 'res) TreeCache_api \<Rightarrow> string \<Rightarrow> 'src \<Rightarrow> feature_extractor \<Rightarrow> 'tok
     \<Rightarrow> bool \<Rightarrow> bool \<Rightarrow> int \<Rightarrow> 'mon list option \<Rightarrow> bool \<Rightarrow> 'res option \<Rightarrow> int
     \<Rightarrow> (py_error + 'c ProcessedAudioCache) \<times> string list" where
  "build_or_load T cache_dir source processor_fe tokenizer enforce_bos enforce_eos batch_size
       monitors await_finished override_res max_length =
     (let bp = BatchAudioProcessor_init processor_fe tokenizer enforce_bos enforce_eos
                 batch_size override_res max_length True;
          monitors = (case monitors of None \<Rightarrow> [] | Some ms \<Rightarrow> ms)
      in case tc_build_or_load_cache T cache_dir source bp await_finished monitors of
           Inl e \<Rightarrow> (Inl e, [])
         | Inr c \<Rightarrow>
             (Inr \<lparr>cache = c\<rparr>,
              [if tc_is_finished T c then ''Cache '' @ cache_dir @ '' is complete.''
               else ''Cache '' @ cache_dir @
                 '' is incomplete. This will block until at least one chunk per process is complete.'']))"

text \<open>
  \<open>ProcessedAudioCache.load\<close>: the \<open>try\<close> with its two handlers, in the source's
  order. \<open>logger.exception\<close> writes one line before the bare \<open>raise\<close>.
\<close>

definition load ::
  "('c, 'src, 'mon, 'tok, 'res) TreeCache_api \<Rightarrow> string
     \<Rightarrow> (py_error + 'c ProcessedAudioCache) \<times> string list" where
  "load T cache_dir =
     (case tc_load T cache_dir AudioTextDict_exemplar of
        Inr c \<Rightarrow> (Inr \<lparr>cache = c\<rparr>, [])
      | Inl (FileNotFoundError m) \<Rightarrow>
          (Inl (FileNotFoundError (cache_dir @ '' is not a complete cache'')), [])
      | Inl e \<Rightarrow> (Inl e, [''error loading cache'']))"

text \<open>
  Modelled from the spec: \<open>TreeCache.load\<close> of \<open>levanter.store.cache\<close>. The
  durable storage maps a directory to its ledger, if there is one; the load fails with
  a not-found error where no ledger exists and with a corruption error where the ledger
  is present but unreadable.
\<close>

datatype 'c ledger = Unreadable string | Readable 'c

definition TreeCache_load :: "(string \<rightharpoonup> 'c ledger) \<Rightarrow> string \<Rightarrow> AudioTextDict \<Rightarrow> py_error + 'c" where
  "TreeCache_load storage cache_dir exemplar =
     (case storage cache_dir of
        None \<Rightarrow> Inl (FileNotFoundError cache_dir)
      | Some (Unreadable m) \<Rightarrow> Inl (OtherError m)
      | Some (Readable c) \<Rightarrow> Inr c)"

subsection \<open>Collaborators for concrete runs\<close>

text \<open>
  Small stand-ins for the collaborators, used where a theorem is run on a concrete
  input: a cache whose state is its committed length and whose \<open>load\<close> reads a
  given storage, a feature extractor that returns each waveform as a single row, and a
  tokenizer that returns the character codes of each text with an all-ones mask.
\<close>

definition ledger_api ::
  "(string \<rightharpoonup> nat ledger) \<Rightarrow> (nat, unit, unit, unit, unit) TreeCache_api" where
  "ledger_api storage =
     \<lparr>tc_async_len = (\<lambda>c. Inr (int c)),
      tc_final_length_is_known = (\<lambda>c. Inr True),
      tc_is_finite = (\<lambda>c. True),
      tc_current_len = (\<lambda>c. Inr (Some (int c))),
      tc_get_batch = (\<lambda>c idxs.
         if list_all (\<lambda>i. 0 \<le> i \<and> i < int c) idxs
         then Inr (map (\<lambda>i. AudioTextDict_exemplar) idxs) else Inl IndexError),
      tc_is_finished = (\<lambda>c. True),
      tc_load = TreeCache_load storage,
      tc_build_or_load_cache = (\<lambda>cache_dir source bp await_finished monitors.
         case storage cache_dir of Some (Readable c) \<Rightarrow> Inr c | _ \<Rightarrow> Inr 0)\<rparr>"

definition row_extractor :: feature_extractor where
  "row_extractor audio_batch rate = Inr (map (\<lambda>w. [w]) audio_batch)"

definition char_tokenizer ::
  "(unit, unit) BatchTokenizer \<Rightarrow> string list \<Rightarrow> py_error + text_features list" where
  "char_tokenizer tok texts = Inr (map (\<lambda>t. (map (\<lambda>c. int (of_char c)) t, map (\<lambda>c. 1) t)) texts)"

section \<open>Properties of the permutation\<close>

subsection \<open>The resampling loop\<close>

lemma while_loop_length_one: "while_loop G 1 val = Some val"
  by (subst while_loop.simps) (simp add: cond_def)

text \<open>
  Partial correctness of the loop: an invariant of the body holds of the returned
  value, and the returned value leaves the condition.
\<close>

lemma while_loop_inv_aux:
  assumes "while_loop G len val = Some r"
  shows "(\<forall>v. I v \<and> cond len v \<longrightarrow> I (loop_body G len v)) \<longrightarrow> I val \<longrightarrow> I r \<and> \<not> cond len r"
  using assms
proof (rule while_loop.raw_induct [where P = "\<lambda>G len val r.
        (\<forall>v. I v \<and> cond len v \<longrightarrow> I (loop_body G len v)) \<longrightarrow> I val \<longrightarrow> I r \<and> \<not> cond len r", rotated])
  fix f :: "'a jrandom \<Rightarrow> int \<Rightarrow> int \<times> 'a \<Rightarrow> (int \<times> 'a) option"
  fix G' len' val' r'
  assume IH: "\<And>G len val r. f G len val = Some r \<Longrightarrow>
        (\<forall>v. I v \<and> cond len v \<longrightarrow> I (loop_body G len v)) \<longrightarrow> I val \<longrightarrow> I r \<and> \<not> cond len r"
    and eq: "(if cond len' val' then f G' len' (loop_body G' len' val') else Some val') = Some r'"
  show "(\<forall>v. I v \<and> cond len' v \<longrightarrow> I (loop_body G' len' v)) \<longrightarrow> I val' \<longrightarrow> I r' \<and> \<not> cond len' r'"
  proof (cases "cond len' val'")
    case True
    with eq have "f G' len' (loop_body G' len' val') = Some r'" by simp
    from IH [OF this] True show ?thesis by blast
  next
    case False
    with eq show ?thesis by simp
  qed
qed

lemma while_loop_inv:
  assumes "while_loop G len val = Some r" and "I val"
    and "\<And>v. I v \<Longrightarrow> cond len v \<Longrightarrow> I (loop_body G len v)"
  shows "I r \<and> \<not> cond len r"
  using while_loop_inv_aux [OF assms(1), of I] assms(2,3) by blast

text \<open>
  The loop returns exactly when some iterate of the body leaves the condition: that
  is, when the key stream that starts at \<open>a_key\<close> reaches a draw coprime to the length.
\<close>

lemma while_loop_terminates:
  assumes "\<not> cond len ((loop_body G len ^^ n) val)"
  shows "\<exists>r. while_loop G len val = Some r"
  using assms
proof (induction n arbitrary: val)
  case 0
  then show ?case by (subst while_loop.simps) simp
next
  case (Suc n)
  show ?case
  proof (cases "cond len val")
    case True
    from Suc.prems have "\<not> cond len ((loop_body G len ^^ n) (loop_body G len val))"
      by (simp add: funpow_swap1)
    from Suc.IH [OF this] True show ?thesis
      by (subst while_loop.simps) simp
  next
    case False
    then show ?thesis by (subst while_loop.simps) simp
  qed
qed

lemma while_loop_diverges:
  assumes "\<And>n. cond len ((loop_body G len ^^ n) val)"
  shows "while_loop G len val = None"
proof (cases "while_loop G len val")
  case None
  then show ?thesis .
next
  case (Some r)
  have "\<forall>v. (\<exists>n. v = (loop_body G len ^^ n) val) \<and> cond len v
          \<longrightarrow> (\<exists>n. loop_body G len v = (loop_body G len ^^ n) val)"
    by (metis funpow.simps(2) o_apply)
  with while_loop_inv_aux [OF Some, of "\<lambda>v. \<exists>n. v = (loop_body G len ^^ n) val"]
  have "(\<exists>n. r = (loop_body G len ^^ n) val) \<and> \<not> cond len r"
    by (metis funpow_0)
  with assms show ?thesis by blast
qed

lemma while_loop_returns_iff:
  "(\<exists>r. while_loop G len val = Some r) \<longleftrightarrow> (\<exists>n. \<not> cond len ((loop_body G len ^^ n) val))"
proof
  assume "\<exists>r. while_loop G len val = Some r"
  then have ne: "while_loop G len val \<noteq> None" by auto
  show "\<exists>n. \<not> cond len ((loop_body G len ^^ n) val)"
  proof (rule ccontr)
    assume "\<not> (\<exists>n. \<not> cond len ((loop_body G len ^^ n) val))"
    then have "cond len ((loop_body G len ^^ n) val)" for n by simp
    then have "while_loop G len val = None" by (rule while_loop_diverges)
    with ne show False by simp
  qed
next
  assume "\<exists>n. \<not> cond len ((loop_body G len ^^ n) val)"
  then obtain n where "\<not> cond len ((loop_body G len ^^ n) val)" ..
  then show "\<exists>r. while_loop G len val = Some r"
    by (rule while_loop_terminates)
qed

subsection \<open>Construction\<close>

lemma init_SomeD:
  assumes "init G len key = Some p"
  obtains a_key b_key r where "jr_split G key = (a_key, b_key)"
    and "while_loop G len (jr_randint G a_key 1 len, a_key) = Some r"
    and "p = \<lparr>p_length = len, prng_key = key, p_a = fst r, p_b = jr_randint G b_key 0 len\<rparr>"
  using assms
  by (cases "jr_split G key") (auto simp: init_def split: option.splits)

lemma init_coprime:
  assumes "init G len key = Some p"
  shows "p_length p = len" and "prng_key p = key" and "gcd (p_a p) len = 1"
proof -
  from assms obtain a_key b_key r where
    w: "while_loop G len (jr_randint G a_key 1 len, a_key) = Some r"
    and p: "p = \<lparr>p_length = len, prng_key = key, p_a = fst r, p_b = jr_randint G b_key 0 len\<rparr>"
    by (rule init_SomeD)
  from while_loop_inv [OF w, of "\<lambda>_. True"] have "\<not> cond len r" by simp
  with p show "p_length p = len" "prng_key p = key" "gcd (p_a p) len = 1"
    by (simp_all add: cond_def)
qed

lemma init_returns_iff:
  "(\<exists>p. init G len key = Some p) \<longleftrightarrow>
     (\<exists>n. \<not> cond len ((loop_body G len ^^ n)
            (jr_randint G (fst (jr_split G key)) 1 len, fst (jr_split G key))))"
proof -
  have "(\<exists>p. init G len key = Some p) \<longleftrightarrow>
     (\<exists>r. while_loop G len (jr_randint G (fst (jr_split G key)) 1 len, fst (jr_split G key)) = Some r)"
    by (cases "jr_split G key") (auto simp: init_def split: option.splits)
  then show ?thesis by (simp only: while_loop_returns_iff)
qed

text \<open>A run of the constructor with one resampling round.\<close>

lemma counter_prng_in_range: "randint_in_range counter_prng"
proof -
  have "lo + int k mod (hi - lo) < hi" if "lo < hi" for k :: nat and lo hi :: int
    using pos_mod_bound [of "hi - lo" "int k"] that by linarith
  then show ?thesis
    by (simp add: randint_in_range_def counter_prng_def)
qed

lemma gcd_examples: "gcd (8::int) 10 \<noteq> 1" "gcd (7::int) 10 = 1"
  by code_simp+

lemma init_counter_10_3:
  "init counter_prng 10 3 = Some \<lparr>p_length = 10, prng_key = 3, p_a = 7, p_b = 8\<rparr>"
  apply (simp add: init_def counter_prng_def)
  apply (subst while_loop.simps, simp add: cond_def loop_body_def gcd_examples)
  apply (subst while_loop.simps, simp add: cond_def loop_body_def gcd_examples)
  done

text \<open>
  The contract of \<open>randint\<close> alone does not bound the loop: a generator that keeps
  drawing 2 is within the contract for length 4, and the loop never exits on it.
\<close>

lemma stuck_prng_in_range: "randint_in_range stuck_prng"
  by (simp add: randint_in_range_def stuck_prng_def)

lemma init_stuck_prng: "init stuck_prng 4 () = None"
proof -
  have body: "loop_body stuck_prng 4 (2, ()) = (2, ())"
    by (simp add: loop_body_def stuck_prng_def)
  have "(loop_body stuck_prng 4 ^^ n) (2, ()) = (2, ())" for n
    by (induction n) (simp_all add: body)
  then have "cond 4 ((loop_body stuck_prng 4 ^^ n) (2, ()))" for n
    by (simp add: cond_def)
  then have "while_loop stuck_prng 4 (2, ()) = None"
    by (rule while_loop_diverges)
  then show ?thesis
    by (simp add: init_def stuck_prng_def)
qed

subsection \<open>Bijection\<close>

lemma affine_inj:
  fixes a b L x y :: int
  assumes "gcd a L = 1" "0 \<le> x" "x < L" "0 \<le> y" "y < L"
    and "(a * x + b) mod L = (a * y + b) mod L"
  shows "x = y"
proof -
  have "L dvd (a * x + b) - (a * y + b)"
    using assms(6) by (simp add: mod_eq_dvd_iff)
  then have "L dvd a * (x - y)" by (simp add: algebra_simps)
  moreover have "coprime L a" using assms(1) by (simp add: coprime_iff_gcd_eq_1 gcd.commute)
  ultimately have "L dvd x - y" by (simp add: coprime_dvd_mult_right_iff)
  moreover have "\<bar>x - y\<bar> < L" using assms(2-5) by linarith
  ultimately have "x - y = 0" using zdvd_not_zless[of "\<bar>x - y\<bar>" L]
    by (cases "x - y = 0") auto
  then show ?thesis by simp
qed

lemma affine_bij:
  fixes a b L :: int
  assumes "gcd a L = 1" "0 < L"
  shows "inj_on (\<lambda>i. (a * i + b) mod L) {0..<L}"
    and "(\<lambda>i. (a * i + b) mod L) ` {0..<L} = {0..<L}"
proof -
  let ?f = "\<lambda>i. (a * i + b) mod L"
  show inj: "inj_on ?f {0..<L}"
    by (rule inj_onI) (metis affine_inj assms(1) atLeastLessThan_iff)
  have "?f ` {0..<L} \<subseteq> {0..<L}" using assms(2) by auto
  with inj show "?f ` {0..<L} = {0..<L}"
    by (intro endo_inj_surj) auto
qed

text \<open>
  Called on the indices \<open>0, \<dots>, length - 1\<close> one after the other, as Python integers,
  the permutation that the constructor returns for a length above 1 raises on none of
  them, returns no value twice, and the values returned are exactly the set
  \<open>[0, length)\<close>.
\<close>

lemma permutation_bijection:
  assumes "1 < len" and "init G len key = Some p"
  shows "\<exists>ys. map (\<lambda>i. call p (Scalar i)) [0..len - 1] = map (\<lambda>y. Inr (Scalar y)) ys
            \<and> distinct ys \<and> set ys = {0..<len}"
proof -
  let ?f = "\<lambda>i. (p_a p * i + p_b p) mod len"
  from assms(2) have len: "p_length p = len" and cop: "gcd (p_a p) len = 1"
    by (rule init_coprime)+
  have rng: "{0..len - 1} = {0..<len}" by auto
  have "map (\<lambda>i. call p (Scalar i)) [0..len - 1] = map (\<lambda>y. Inr (Scalar y)) (map ?f [0..len - 1])"
    by (simp add: len)
  moreover have "distinct (map ?f [0..len - 1])"
    using affine_bij(1) [OF cop, of "p_b p"] assms(1) by (simp add: distinct_map rng)
  moreover have "set (map ?f [0..len - 1]) = {0..<len}"
    using affine_bij(2) [OF cop, of "p_b p"] assms(1) by (simp add: rng)
  ultimately show ?thesis by blast
qed

lemma permutation_bijection_example:
  "(1::int) < 10 \<and> init counter_prng 10 3 = Some \<lparr>p_length = 10, prng_key = 3, p_a = 7, p_b = 8\<rparr>
   \<and> (\<exists>ys. map (\<lambda>i. call \<lparr>p_length = 10, prng_key = 3::nat, p_a = 7, p_b = 8\<rparr> (Scalar i)) [0..10 - 1]
             = map (\<lambda>y. Inr (Scalar y)) ys \<and> distinct ys \<and> set ys = {0..<10})"
  using permutation_bijection [of 10 counter_prng 3, OF _ init_counter_10_3] init_counter_10_3
  by simp

subsection \<open>The frozen multiplier and offset\<close>

lemma loop_body_in_range:
  assumes "randint_in_range G" "1 < len"
  shows "1 \<le> fst (loop_body G len v) \<and> fst (loop_body G len v) < len"
  using assms by (simp add: loop_body_def randint_in_range_def split: prod.split)

text \<open>
  C4. When construction returns, for a length above 1 and a generator whose
  \<open>randint\<close> keeps to its interval, the stored multiplier is coprime to the length
  and lies in \<open>[1, length)\<close>, and the stored offset lies in \<open>[0, length)\<close>. Both are
  fields of an immutable record; \<open>call\<close> reads them and returns no new object.
\<close>

theorem init_invariant:
  assumes "randint_in_range G" and "1 < len" and "init G len key = Some p"
  shows "gcd (p_a p) (p_length p) = 1 \<and> 1 \<le> p_a p \<and> p_a p < p_length p
         \<and> 0 \<le> p_b p \<and> p_b p < p_length p"
proof -
  from assms(3) obtain a_key b_key r where
    w: "while_loop G len (jr_randint G a_key 1 len, a_key) = Some r"
    and p: "p = \<lparr>p_length = len, prng_key = key, p_a = fst r, p_b = jr_randint G b_key 0 len\<rparr>"
    by (rule init_SomeD)
  have a0: "1 \<le> jr_randint G a_key 1 len \<and> jr_randint G a_key 1 len < len"
    using assms(1,2) by (simp add: randint_in_range_def)
  have "(1 \<le> fst r \<and> fst r < len) \<and> \<not> cond len r"
    by (rule while_loop_inv [OF w]) (use a0 loop_body_in_range [OF assms(1,2)] in auto)
  moreover have "0 \<le> jr_randint G b_key 0 len \<and> jr_randint G b_key 0 len < len"
    using assms(1,2) by (simp add: randint_in_range_def)
  ultimately show ?thesis by (simp add: p cond_def)
qed

theorem init_invariant_witness:
  "randint_in_range counter_prng \<and> (1::int) < 10
   \<and> init counter_prng 10 3 = Some \<lparr>p_length = 10, prng_key = 3, p_a = 7, p_b = 8\<rparr>
   \<and> gcd (7::int) 10 = 1 \<and> (1::int) \<le> 7 \<and> (7::int) < 10 \<and> (0::int) \<le> 8 \<and> (8::int) < 10"
  using init_invariant [OF counter_prng_in_range _ init_counter_10_3] counter_prng_in_range
    init_counter_10_3
  by simp

subsection \<open>Length 1\<close>

text \<open>
  C6. For length 1 and every key, construction returns (the resampling loop exits
  at once, whatever the generator draws, since every integer is coprime to 1), and the
  constructed permutation maps 0 to 0.
\<close>

theorem init_length_one:
  "\<exists>p. init G 1 key = Some p \<and> call p (Scalar 0) = Inr (Scalar 0)"
proof -
  obtain a_key b_key where s: "jr_split G key = (a_key, b_key)"
    by (cases "jr_split G key")
  let ?p = "\<lparr>p_length = 1, prng_key = key, p_a = jr_randint G a_key 1 1,
             p_b = jr_randint G b_key 0 1\<rparr>"
  have "init G 1 key = Some ?p"
    by (simp add: init_def s while_loop_length_one)
  moreover have "call ?p (Scalar 0) = Inr (Scalar 0)"
    by simp
  ultimately show ?thesis by blast
qed

theorem init_length_one_witness:
  "\<exists>p. init counter_prng 1 5 = Some p \<and> call p (Scalar 0) = Inr (Scalar 0)"
  using init_length_one [of counter_prng 5] .

subsection \<open>Determinism\<close>









text \<open>
  Without \<open>keyed_draws\<close> the constructor has more than one outcome for one length and
  key.
\<close>

lemma init_rel_free_draws:
  assumes "gcd a 10 = 1" and "1 \<le> a" and "a < 10"
  shows "init_rel free_draws 10 () \<lparr>p_length = 10, prng_key = (), p_a = a, p_b = 8\<rparr>"
proof -
  have 1: "jr_split_rel free_draws () ((), ())" by (simp add: free_draws_def)
  have 2: "jr_randint_rel free_draws () 1 10 a" using assms(2,3) by (simp add: free_draws_def)
  have 3: "jr_randint_rel free_draws () 0 10 8" by (simp add: free_draws_def)
  have "\<not> cond 10 (a, ())" using assms(1) by (simp add: cond_def)
  then have 4: "while_loop_rel free_draws 10 (a, ()) (a, ())" by (rule while_loop_rel.exit)
  show ?thesis by (rule init_rel.construct [OF 1 2 3 4])
qed

lemma free_draws_not_deterministic:
  "\<exists>p q. init_rel free_draws 10 () p \<and> init_rel free_draws 10 () q \<and> q \<noteq> p"
proof -
  have g: "gcd (7::int) 10 = 1" "gcd (3::int) 10 = 1" by code_simp+
  have "init_rel free_draws 10 () \<lparr>p_length = 10, prng_key = (), p_a = 7, p_b = 8\<rparr>"
    by (rule init_rel_free_draws) (simp_all add: g)
  moreover have "init_rel free_draws 10 () \<lparr>p_length = 10, prng_key = (), p_a = 3, p_b = 8\<rparr>"
    by (rule init_rel_free_draws) (simp_all add: g)
  moreover have "\<lparr>p_length = 10, prng_key = (), p_a = 3, p_b = 8\<rparr>
      \<noteq> \<lparr>p_length = 10::int, prng_key = (), p_a = 7::int, p_b = 8::int\<rparr>" by simp
  ultimately show ?thesis by blast
qed



subsection \<open>Bounds check\<close>

text \<open>
  C3. A scalar index outside \<open>[0, length)\<close>, and an array (of either library) with
  an element that is negative or at least the length, makes \<open>call\<close> raise
  \<open>IndexError\<close>; no value is returned for it.
\<close>

theorem call_out_of_range:
  "(i < 0 \<or> p_length p \<le> i \<longrightarrow> call p (Scalar i) = Inl IndexError)
   \<and> ((\<exists>x \<in> set (elems arr). x < 0 \<or> p_length p \<le> x) \<longrightarrow>
        call p (JnpArray arr) = Inl IndexError \<and> call p (NpArray arr) = Inl IndexError)"
  by (auto simp: any_lt_def any_ge_def list_ex_iff)

theorem call_out_of_range_witness:
  "call \<lparr>p_length = 10, prng_key = 3::nat, p_a = 7, p_b = 8\<rparr> (Scalar 10) = Inl IndexError
   \<and> call \<lparr>p_length = 10, prng_key = 3::nat, p_a = 7, p_b = 8\<rparr> (Scalar (- 1)) = Inl IndexError
   \<and> call \<lparr>p_length = 10, prng_key = 3::nat, p_a = 7, p_b = 8\<rparr>
        (JnpArray \<lparr>dtype_bits = 32, shape = [2], elems = [3, 10]\<rparr>) = Inl IndexError
   \<and> call \<lparr>p_length = 10, prng_key = 3::nat, p_a = 7, p_b = 8\<rparr>
        (NpArray \<lparr>dtype_bits = 64, shape = [2], elems = [- 1, 3]\<rparr>) = Inl IndexError"
  using call_out_of_range [of 10 "\<lparr>p_length = 10, prng_key = 3::nat, p_a = 7, p_b = 8\<rparr>"
      "\<lparr>dtype_bits = 32, shape = [2], elems = [3, 10]\<rparr>"]
    call_out_of_range [of "- 1" "\<lparr>p_length = 10, prng_key = 3::nat, p_a = 7, p_b = 8\<rparr>"
      "\<lparr>dtype_bits = 64, shape = [2], elems = [- 1, 3]\<rparr>"]
  by simp

text \<open>Conversely, a call that returns was given indices in range only.\<close>

lemma call_returns_only_in_range:
  "call p (Scalar i) = Inr r \<Longrightarrow> 0 \<le> i \<and> i < p_length p"
  "call p (JnpArray arr) = Inr r \<Longrightarrow> \<forall>x \<in> set (elems arr). 0 \<le> x \<and> x < p_length p"
  "call p (NpArray arr) = Inr r \<Longrightarrow> \<forall>x \<in> set (elems arr). 0 \<le> x \<and> x < p_length p"
  by (auto simp: any_lt_def any_ge_def list_ex_iff split: if_splits)

subsection \<open>Arrays of indices and the width of their elements\<close>

lemma wrap_fits: "0 < w \<Longrightarrow> fits w x \<Longrightarrow> wrap w x = x"
proof -
  assume w: "0 < w" and f: "fits w x"
  have "(2::int) ^ w = 2 * 2 ^ (w - 1)" using w by (cases w) simp_all
  with f show ?thesis by (simp add: fits_def wrap_def)
qed

lemma affine_arr_exact:
  assumes "0 < dtype_bits arr"
    and "fits (dtype_bits arr) (p_a p)" "fits (dtype_bits arr) (p_b p)"
    and "fits (dtype_bits arr) (p_length p)" "p_length p \<noteq> 0"
    and "\<forall>x \<in> set (elems arr). fits (dtype_bits arr) (p_a p * x)
            \<and> fits (dtype_bits arr) (p_a p * x + p_b p)"
  shows "affine_arr p arr =
           Inr (arr\<lparr>elems := map (\<lambda>x. (p_a p * x + p_b p) mod p_length p) (elems arr)\<rparr>)"
  using assms by (simp add: affine_arr_def arr_mul_def arr_add_def arr_mod_def wrap_fits)

text \<open>
  Where no intermediate value leaves the element type, the call on an array of valid
  indices returns an array of the same shape and element type that holds
  \<open>(a * x + b) mod length\<close> at each position, which is what the scalar call returns
  for \<open>x\<close>.
\<close>

lemma call_array_exact:
  assumes "wf_array arr"
    and "\<forall>x \<in> set (elems arr). 0 \<le> x \<and> x < p_length p"
    and "fits (dtype_bits arr) (p_a p)" "fits (dtype_bits arr) (p_b p)"
    and "fits (dtype_bits arr) (p_length p)"
    and "\<forall>x \<in> set (elems arr). fits (dtype_bits arr) (p_a p * x)
            \<and> fits (dtype_bits arr) (p_a p * x + p_b p)"
  shows "\<exists>out. call p (JnpArray arr) = Inr (JnpArray out) \<and> call p (NpArray arr) = Inr (NpArray out)
           \<and> shape out = shape arr \<and> dtype_bits out = dtype_bits arr
           \<and> map (\<lambda>y. Inr (Scalar y)) (elems out) = map (\<lambda>x. call p (Scalar x)) (elems arr)"
proof (cases "elems arr = []")
  case True
  then show ?thesis
    using assms(3-5)
    by (simp add: any_lt_def any_ge_def affine_arr_def arr_mul_def arr_add_def arr_mod_def)
next
  case False
  then obtain x where "x \<in> set (elems arr)" by (cases "elems arr") auto
  with assms(2) have nz: "p_length p \<noteq> 0" by auto
  have w: "0 < dtype_bits arr" using assms(1) by (simp add: wf_array_def)
  have chk: "\<not> (any_lt arr 0 \<or> any_ge arr (p_length p))"
    using assms(2) by (auto simp: any_lt_def any_ge_def list_ex_iff)
  have sc: "map (\<lambda>x. call p (Scalar x)) (elems arr)
      = map (\<lambda>x. Inr (Scalar ((p_a p * x + p_b p) mod p_length p))) (elems arr)"
    using assms(2) by (intro map_cong) auto
  show ?thesis
    using chk sc by (simp add: affine_arr_exact [OF w assms(3-5) nz assms(6)] comp_def)
qed

lemma wrap_add: "wrap w (wrap w x + y) = wrap w (x + y)"
proof -
  have "wrap w x + y + 2 ^ (w - 1) = (x + 2 ^ (w - 1)) mod 2 ^ w + y"
    by (simp add: wrap_def)
  then have "(wrap w x + y + 2 ^ (w - 1)) mod 2 ^ w = ((x + 2 ^ (w - 1)) mod 2 ^ w + y) mod 2 ^ w"
    by (rule arg_cong)
  also have "\<dots> = (x + 2 ^ (w - 1) + y) mod 2 ^ w"
    by (rule mod_add_left_eq)
  also have "x + 2 ^ (w - 1) + y = x + y + 2 ^ (w - 1)"
    by (simp only: ac_simps)
  finally show ?thesis
    unfolding wrap_def by (rule arg_cong)
qed

lemma wrap_shift:
  assumes "0 < w" and "fits w (u - k * 2 ^ w)"
  shows "wrap w u = u - k * 2 ^ w"
proof -
  have "(u - k * 2 ^ w + 2 ^ (w - 1) + k * 2 ^ w) mod 2 ^ w = (u - k * 2 ^ w + 2 ^ (w - 1)) mod 2 ^ w"
    by (rule mod_mult_self1)
  moreover have "u - k * 2 ^ w + 2 ^ (w - 1) + k * 2 ^ w = u + 2 ^ (w - 1)"
    by (simp only: diff_add_eq diff_add_cancel add_diff_cancel)
  ultimately have "(u + 2 ^ (w - 1)) mod 2 ^ w = (u - k * 2 ^ w + 2 ^ (w - 1)) mod 2 ^ w"
    by (simp only:)
  then have "wrap w u = wrap w (u - k * 2 ^ w)"
    unfolding wrap_def by (rule arg_cong)
  with wrap_fits [OF assms] show ?thesis by (simp only:)
qed

text \<open>
  C2. The scalar call returns \<open>(a * index + b) mod length\<close> for every valid index;
  the call on an array does so only while \<open>a * index + b\<close> stays inside the element
  type. For length 100000, multiplier 99999 and offset 0, the product at index 99999
  is 9999800001, which a 32-bit element wraps to 1409865409: the call on the
  \<open>int32\<close> array \<open>[99999]\<close> returns \<open>[65409]\<close>, while the scalar call at 99999
  returns 1.
\<close>

theorem call_int32_overflow:
  "call \<lparr>p_length = 100000, prng_key = (0::nat), p_a = 99999, p_b = 0\<rparr>
        (JnpArray \<lparr>dtype_bits = 32, shape = [1], elems = [99999]\<rparr>)
     = Inr (JnpArray \<lparr>dtype_bits = 32, shape = [1], elems = [65409]\<rparr>)
   \<and> call \<lparr>p_length = 100000, prng_key = (0::nat), p_a = 99999, p_b = 0\<rparr> (Scalar 99999)
     = Inr (Scalar 1)"
  by (simp add: any_lt_def any_ge_def affine_arr_def arr_mul_def arr_add_def arr_mod_def
      fits_def wrap_def)

text \<open>
  The same happens for every permutation of length 100000 whose multiplier is at
  least 21476, whatever its offset: at index 99999 the \<open>int32\<close> call and the scalar
  call return different values.
\<close>

lemma int32_overflow_at_last_index:
  assumes "p_length p = 100000" and "21476 \<le> p_a p" and "p_a p < 100000"
    and "0 \<le> p_b p" and "p_b p < 100000"
  shows "\<exists>y z. call p (JnpArray \<lparr>dtype_bits = 32, shape = [1], elems = [99999]\<rparr>)
                 = Inr (JnpArray \<lparr>dtype_bits = 32, shape = [1], elems = [y]\<rparr>)
               \<and> call p (Scalar 99999) = Inr (Scalar z) \<and> y \<noteq> z"
proof -
  let ?u = "p_a p * 99999 + p_b p"
  have lo: "2147483648 \<le> ?u" using assms(2,4) by simp
  have hi: "?u < 10737418240" using assms(3,5) by simp
  have arr: "call p (JnpArray \<lparr>dtype_bits = 32, shape = [1], elems = [99999]\<rparr>)
      = Inr (JnpArray \<lparr>dtype_bits = 32, shape = [1], elems = [wrap 32 ?u mod 100000]\<rparr>)"
    using assms
    by (simp add: any_lt_def any_ge_def affine_arr_def arr_mul_def arr_add_def arr_mod_def
        fits_def wrap_add)
  have sc: "call p (Scalar 99999) = Inr (Scalar (?u mod 100000))"
    using assms by simp
  have "wrap 32 ?u mod 100000 \<noteq> ?u mod 100000"
  proof (cases "?u < 6442450944")
    case True
    with lo have "fits 32 (?u - 1 * 2 ^ 32)" by (simp add: fits_def)
    then have "wrap 32 ?u = ?u - 1 * 2 ^ 32" by (intro wrap_shift) simp
    moreover have "\<not> (100000::int) dvd 4294967296" by simp
    ultimately show ?thesis by (simp add: mod_eq_dvd_iff)
  next
    case False
    with hi have "fits 32 (?u - 2 * 2 ^ 32)" by (simp add: fits_def)
    then have "wrap 32 ?u = ?u - 2 * 2 ^ 32" by (intro wrap_shift) simp
    moreover have "\<not> (100000::int) dvd 8589934592" by simp
    ultimately show ?thesis by (simp add: mod_eq_dvd_iff)
  qed
  with arr sc show ?thesis by blast
qed

text \<open>
  C1. The permutation is meant to be a bijection on \<open>[0, length)\<close>. Called on an
  \<open>int32\<close> array it is not one: for length 100000, multiplier 69341 (coprime to the
  length) and offset 12228, the indices 0 and 76256 are both mapped to 12228, because
  69341 * 76256 = 5287667296 wraps to 992700000. The scalar calls return 12228 and
  79524.
\<close>

theorem call_int32_not_injective:
  "gcd (69341::int) 100000 = 1
   \<and> call \<lparr>p_length = 100000, prng_key = (0::nat), p_a = 69341, p_b = 12228\<rparr>
        (JnpArray \<lparr>dtype_bits = 32, shape = [2], elems = [0, 76256]\<rparr>)
     = Inr (JnpArray \<lparr>dtype_bits = 32, shape = [2], elems = [12228, 12228]\<rparr>)
   \<and> call \<lparr>p_length = 100000, prng_key = (0::nat), p_a = 69341, p_b = 12228\<rparr> (Scalar 0)
     = Inr (Scalar 12228)
   \<and> call \<lparr>p_length = 100000, prng_key = (0::nat), p_a = 69341, p_b = 12228\<rparr> (Scalar 76256)
     = Inr (Scalar 79524)"
proof -
  have "gcd (69341::int) 100000 = 1" by code_simp
  then show ?thesis
    by (simp add: any_lt_def any_ge_def affine_arr_def arr_mul_def arr_add_def arr_mod_def
        fits_def wrap_def)
qed

section \<open>Properties of the audio cache\<close>

subsection \<open>Loading\<close>

text \<open>
  C8. \<open>load\<close> ends in \<open>FileNotFoundError\<close>, with no cache object, when
  \<open>TreeCache.load\<close> raises \<open>FileNotFoundError\<close>, which is what it does where the
  storage holds no ledger for the directory; and when \<open>TreeCache.load\<close> raises any
  other exception, \<open>load\<close> logs one line and raises that same exception.
\<close>

theorem load_errors:
  "(tc_load T cache_dir AudioTextDict_exemplar = Inl (FileNotFoundError m) \<longrightarrow>
      load T cache_dir = (Inl (FileNotFoundError (cache_dir @ '' is not a complete cache'')), []))
   \<and> (storage cache_dir = None \<longrightarrow>
      load (T\<lparr>tc_load := TreeCache_load storage\<rparr>) cache_dir
        = (Inl (FileNotFoundError (cache_dir @ '' is not a complete cache'')), []))
   \<and> (tc_load T cache_dir AudioTextDict_exemplar = Inl e \<and> (\<forall>m'. e \<noteq> FileNotFoundError m') \<longrightarrow>
      load T cache_dir = (Inl e, [''error loading cache'']))"
  by (cases e) (simp_all add: load_def TreeCache_load_def)

theorem load_errors_witness:
  "load (ledger_api [''/cache/bad'' \<mapsto> Unreadable ''corrupt ledger'']) ''/cache/none''
     = (Inl (FileNotFoundError ''/cache/none is not a complete cache''), [])
   \<and> load (ledger_api [''/cache/bad'' \<mapsto> Unreadable ''corrupt ledger'']) ''/cache/bad''
     = (Inl (OtherError ''corrupt ledger''), [''error loading cache''])"
  using load_errors [of "ledger_api [''/cache/bad'' \<mapsto> Unreadable ''corrupt ledger'']"
      "''/cache/none''" "''/cache/none''" "[''/cache/bad'' \<mapsto> Unreadable ''corrupt ledger'']"
      "OtherError ''x''"]
    load_errors [of "ledger_api [''/cache/bad'' \<mapsto> Unreadable ''corrupt ledger'']"
      "''/cache/bad''" "''''" "Map.empty" "OtherError ''corrupt ledger''"]
  by (simp add: ledger_api_def TreeCache_load_def)

subsection \<open>Delegation\<close>

text \<open>
  C9. \<open>ProcessedAudioCache\<close> adds nothing to the wrapped cache: \<open>async_len\<close>,
  \<open>final_length_is_known\<close>, \<open>is_finite\<close>, \<open>current_len\<close> and \<open>get_batch\<close> return what
  the method of the same name of the wrapped \<open>TreeCache\<close> returns; \<open>build_or_load\<close>
  returns the cache that \<open>build_or_load_cache\<close> returns for a
  \<open>BatchAudioProcessor\<close> built from its arguments, wrapped, or raises what it raises;
  and \<open>load\<close> returns the cache that \<open>TreeCache.load\<close> returns for the exemplar,
  wrapped, and raises exactly when \<open>TreeCache.load\<close> raises.
\<close>

theorem ProcessedAudioCache_delegates:
  "async_len T self = tc_async_len T (cache self)
   \<and> final_length_is_known T self = tc_final_length_is_known T (cache self)
   \<and> is_finite T self = tc_is_finite T (cache self)
   \<and> current_len T self = tc_current_len T (cache self)
   \<and> get_batch T self idxs = tc_get_batch T (cache self) idxs
   \<and> fst (build_or_load T cache_dir source processor_fe tokenizer enforce_bos enforce_eos
            batch_size monitors await_finished override_res max_length)
       = map_sum id (\<lambda>c. \<lparr>cache = c\<rparr>)
           (tc_build_or_load_cache T cache_dir source
              (BatchAudioProcessor_init processor_fe tokenizer enforce_bos enforce_eos batch_size
                 override_res max_length True)
              await_finished (case monitors of None \<Rightarrow> [] | Some ms \<Rightarrow> ms))
   \<and> map_sum (\<lambda>e. ()) id (fst (load T cache_dir))
       = map_sum (\<lambda>e. ()) (\<lambda>c. \<lparr>cache = c\<rparr>) (tc_load T cache_dir AudioTextDict_exemplar)"
proof -
  have "map_sum (\<lambda>e. ()) id (fst (load T cache_dir))
       = map_sum (\<lambda>e. ()) (\<lambda>c. \<lparr>cache = c\<rparr>) (tc_load T cache_dir AudioTextDict_exemplar)"
    by (simp add: load_def split: sum.split py_error.split)
  moreover have "fst (build_or_load T cache_dir source processor_fe tokenizer enforce_bos enforce_eos
            batch_size monitors await_finished override_res max_length)
       = map_sum id (\<lambda>c. \<lparr>cache = c\<rparr>)
           (tc_build_or_load_cache T cache_dir source
              (BatchAudioProcessor_init processor_fe tokenizer enforce_bos enforce_eos batch_size
                 override_res max_length True)
              await_finished (case monitors of None \<Rightarrow> [] | Some ms \<Rightarrow> ms))"
    by (simp add: build_or_load_def Let_def split: sum.split)
  ultimately show ?thesis
    by (simp add: async_len_def final_length_is_known_def is_finite_def current_len_def
        get_batch_def)
qed

theorem ProcessedAudioCache_delegates_witness:
  "get_batch (ledger_api [''/cache/ok'' \<mapsto> Readable 3]) \<lparr>cache = 3\<rparr> [2, 0]
     = Inr [AudioTextDict_exemplar, AudioTextDict_exemplar]
   \<and> async_len (ledger_api [''/cache/ok'' \<mapsto> Readable 3]) \<lparr>cache = 3\<rparr> = Inr 3
   \<and> fst (load (ledger_api [''/cache/ok'' \<mapsto> Readable 3]) ''/cache/ok'') = Inr \<lparr>cache = 3\<rparr>
   \<and> fst (build_or_load (ledger_api [''/cache/ok'' \<mapsto> Readable 3]) ''/cache/ok'' ()
            row_extractor () True True 128 None True None 448) = Inr \<lparr>cache = 3\<rparr>"
  using ProcessedAudioCache_delegates [of "ledger_api [''/cache/ok'' \<mapsto> Readable 3]"
      "\<lparr>cache = 3\<rparr>" "[2, 0]" "''/cache/ok''" "()" row_extractor "()" True True 128 None
      True None 448]
  by (simp add: ledger_api_def TreeCache_load_def load_def)

subsection \<open>Sampling rates\<close>

lemma remdups_uniform:
  "xs \<noteq> [] \<Longrightarrow> \<forall>x \<in> set xs. x = r \<Longrightarrow> remdups xs = [r]"
proof (induction xs)
  case Nil
  then show ?case by simp
next
  case (Cons x xs)
  show ?case
  proof (cases "xs = []")
    case True
    with Cons.prems show ?thesis by simp
  next
    case False
    then obtain y where "y \<in> set xs" by (cases xs) auto
    with Cons.prems have "x \<in> set xs" by simp
    moreover from False Cons have "remdups xs = [r]" by simp
    ultimately show ?thesis by simp
  qed
qed

lemma remdups_mixed:
  assumes "a \<in> set xs" "b \<in> set xs" "a \<noteq> b"
  shows "remdups xs \<noteq> [r]"
proof
  assume "remdups xs = [r]"
  then have "set xs = {r}" by (metis set_remdups list.simps(15) empty_set)
  with assms show False by auto
qed

lemma empty_batch_raises:
  "BatchAudioProcessor_call bt_call self [] = (Inl ValueError, [])"
  by (simp add: BatchAudioProcessor_call_def unzip_batch_def)

text \<open>
  C10. A batch with two items of different sampling rates makes the call raise
  \<open>AssertionError\<close> before either collaborator has been called. A batch whose items
  all carry the rate \<open>r\<close> never ends in that outcome, and when it has an item the
  assertion passes: the feature extractor is called next, on the waveforms of the
  batch with \<open>sampling_rate = r\<close>.
\<close>

theorem sampling_rates_assertion:
  "((\<exists>x \<in> set batch. \<exists>y \<in> set batch. fst (snd x) \<noteq> fst (snd y)) \<longrightarrow>
      BatchAudioProcessor_call bt_call self batch
        = (Inl (AssertionError ''Sampling rates should be standardized''), []))
   \<and> ((\<forall>x \<in> set batch. fst (snd x) = r) \<longrightarrow>
      BatchAudioProcessor_call bt_call self batch
        \<noteq> (Inl (AssertionError ''Sampling rates should be standardized''), [])
      \<and> (batch \<noteq> [] \<longrightarrow>
         (\<exists>evs. snd (BatchAudioProcessor_call bt_call self batch)
                  = FeatureExtractorCall (map fst batch) r # evs)))"
proof (intro conjI impI)
  assume "\<exists>x \<in> set batch. \<exists>y \<in> set batch. fst (snd x) \<noteq> fst (snd y)"
  then obtain x y where xy: "x \<in> set batch" "y \<in> set batch" "fst (snd x) \<noteq> fst (snd y)"
    by blast
  let ?rates = "map (fst \<circ> snd) batch"
  have "fst (snd x) \<in> set ?rates" "fst (snd y) \<in> set ?rates"
    using xy(1,2) by auto
  then have ne: "remdups ?rates \<noteq> [r']" for r'
    using xy(3) by (rule remdups_mixed)
  have "batch \<noteq> []" using xy(1) by auto
  then show "BatchAudioProcessor_call bt_call self batch
        = (Inl (AssertionError ''Sampling rates should be standardized''), [])"
    using ne by (simp add: BatchAudioProcessor_call_def unzip_batch_def split: list.split)
next
  assume a: "\<forall>x \<in> set batch. fst (snd x) = r" and ne: "batch \<noteq> []"
  then have "remdups (map (fst \<circ> snd) batch) = [r]"
    by (intro remdups_uniform) auto
  with ne show "\<exists>evs. snd (BatchAudioProcessor_call bt_call self batch)
               = FeatureExtractorCall (map fst batch) r # evs"
    by (simp add: BatchAudioProcessor_call_def unzip_batch_def split: sum.split)
next
  assume a: "\<forall>x \<in> set batch. fst (snd x) = r"
  show "BatchAudioProcessor_call bt_call self batch
        \<noteq> (Inl (AssertionError ''Sampling rates should be standardized''), [])"
  proof (cases "batch = []")
    case True
    then show ?thesis by (simp add: empty_batch_raises)
  next
    case False
    with a have "remdups (map (fst \<circ> snd) batch) = [r]"
      by (intro remdups_uniform) auto
    with False show ?thesis
      by (simp add: BatchAudioProcessor_call_def unzip_batch_def split: sum.split)
  qed
qed

theorem sampling_rates_assertion_witness:
  "BatchAudioProcessor_call char_tokenizer
      (BatchAudioProcessor_init row_extractor () True True 128 None 448 True)
      [([0], 16000, ''a''), ([1], 8000, ''b'')]
     = (Inl (AssertionError ''Sampling rates should be standardized''), [])
   \<and> snd (BatchAudioProcessor_call char_tokenizer
      (BatchAudioProcessor_init row_extractor () True True 128 None 448 True)
      [([0], 16000, ''a''), ([1], 16000, ''b'')])
     = [FeatureExtractorCall [[0], [1]] 16000, BatchTokenizerCall [''a'', ''b'']]"
  using sampling_rates_assertion [of "[([0], 16000, ''a''), ([1], 8000, ''b'')]" char_tokenizer
      "BatchAudioProcessor_init row_extractor () True True 128 None 448 True" 16000]
    sampling_rates_assertion [of "[([0], 16000, ''a''), ([1], 16000, ''b'')]" char_tokenizer
      "BatchAudioProcessor_init row_extractor () True True 128 None 448 True" 16000]
  by (simp add: BatchAudioProcessor_call_def BatchAudioProcessor_init_def unzip_batch_def
      row_extractor_def char_tokenizer_def)

end
